theory Spec2Isabelle
  imports Main "HOL-Library.Word"
begin

unbundle bit_operations_syntax

section \<open>Python and operating-system values\<close>

text \<open>
  The development embeds the scan engine (\<^verbatim>\<open>FSEntry.scan\<close>, \<^verbatim>\<open>FSEntry.invalidate\<close>),
  the backup engine (\<^verbatim>\<open>backup\<close>, \<^verbatim>\<open>backup_entry\<close>, \<^verbatim>\<open>backup_iterator\<close>) and the
  garbage collector (\<^verbatim>\<open>Object.collect_garbage\<close>, \<^verbatim>\<open>Object.calculate_children\<close>) of
  backathon. Python integers are \<open>int\<close>, byte strings are lists of 8-bit words,
  \<^verbatim>\<open>str\<close> is \<open>string\<close>, \<^verbatim>\<open>None\<close> is \<open>None\<close>. Every exception of the source is a
  value of \<open>exn\<close>.
\<close>

type_synonym byte = "8 word"
type_synonym bytes = "byte list"

text \<open>The subclasses of \<^verbatim>\<open>OSError\<close> that the source tells apart, and the rest.\<close>

datatype os_error = FileNotFoundError | NotADirectoryError | PermissionError | OtherOSError

datatype exn =
    OSError os_error
  | AssertionError
  | DependencyError
  | RuntimeError string
  | TypeError
  | IndexError
  | KeyError
  | StopIteration
  | ZeroDivisionError
  | ValueError
  | ProtectedError
  | RemoteUploadFailure

text \<open>
  A call either returns or raises. Functions that change the metadata store take the
  state and give it back beside the outcome.
\<close>

datatype 'a outcome = Returns 'a | Raises exn

text \<open>\<^verbatim>\<open>os.stat_result\<close>: the fields the source reads.\<close>

record stat_result =
  sr_mode :: int
  sr_mtime_ns :: int
  sr_size :: int
  sr_ino :: int
  sr_uid :: int
  sr_gid :: int
  sr_atime_ns :: int

text \<open>\<^verbatim>\<open>stat.S_IFMT\<close>, \<^verbatim>\<open>stat.S_ISDIR\<close> and \<^verbatim>\<open>stat.S_ISREG\<close> of the standard library.\<close>

definition S_IFMT :: "int \<Rightarrow> int" where
  "S_IFMT mode = mode AND 61440"

definition S_ISDIR :: "int \<Rightarrow> bool" where
  "S_ISDIR mode = (S_IFMT mode = 16384)"

definition S_ISREG :: "int \<Rightarrow> bool" where
  "S_ISREG mode = (S_IFMT mode = 32768)"

text \<open>\<^verbatim>\<open>posixpath.basename\<close> and \<^verbatim>\<open>posixpath.join\<close> (two arguments).\<close>

definition basename :: "string \<Rightarrow> string" where
  "basename p = rev (takeWhile (\<lambda>c. c \<noteq> CHR ''/'') (rev p))"

definition path_join :: "string \<Rightarrow> string \<Rightarrow> string" where
  "path_join a b =
     (if b \<noteq> [] \<and> hd b = CHR ''/'' then b
      else if a = [] \<or> last a = CHR ''/'' then a @ b
      else a @ ''/'' @ b)"

text \<open>
  An open file: its bytes, and how many read calls succeed before one raises
  (\<open>None\<close>: every read succeeds).
\<close>

record file_handle =
  fh_data :: bytes
  fh_fault :: "(nat \<times> os_error) option"

text \<open>
  The filesystem as the engine sees it: what \<^verbatim>\<open>os.lstat\<close>, \<^verbatim>\<open>os.listdir\<close> and
  \<^verbatim>\<open>os.open\<close> answer for a path (the flag of \<open>fs_open\<close> says whether
  \<^verbatim>\<open>O_NOATIME\<close> was requested), and whether the platform has \<^verbatim>\<open>O_NOATIME\<close>.
\<close>

record filesystem =
  fs_lstat :: "string \<Rightarrow> os_error + stat_result"
  fs_listdir :: "string \<Rightarrow> os_error + string list"
  fs_open :: "string \<Rightarrow> bool \<Rightarrow> os_error + file_handle"
  fs_has_noatime :: bool

section \<open>The metadata store\<close>

text \<open>
  \<^verbatim>\<open>FSEntry\<close> (table \<^verbatim>\<open>fsentry\<close>). An instance and a row have the same fields;
  \<open>fs_id\<close> is \<^verbatim>\<open>id\<close>, which Django sets to \<^verbatim>\<open>None\<close> on the instance once it is
  deleted. \<open>obj_id = None\<close> is a dirty entry.
\<close>

record fsentry =
  fs_id :: "nat option"
  obj_id :: "bytes option"
  path :: string
  parent_id :: "nat option"
  new :: bool
  st_mode :: "int option"
  st_mtime_ns :: "int option"
  st_size :: "int option"

text \<open>
  The values \<^verbatim>\<open>umsgpack.unpack\<close> gives back. A payload is the sequence of values
  packed into its buffer, which is what \<^verbatim>\<open>Object.unpack_payload\<close> iterates over:
  packing and unpacking (a library outside the repository) are taken to be inverse,
  a tuple coming back as a list.
\<close>

datatype msgpack =
    MNil
  | MBool bool
  | MInt int
  | MStr string
  | MBin bytes
  | MArray "msgpack list"
  | MMap "(string \<times> msgpack) list"

type_synonym payload_items = "msgpack list"

text \<open>
  Modelled from the spec: the fields \<^verbatim>\<open>type\<close>, \<^verbatim>\<open>file_size\<close> and
  \<^verbatim>\<open>last_modified_time\<close> of \<^verbatim>\<open>Object\<close> (table \<^verbatim>\<open>objects\<close>), which backup.py assigns and
  models.py does not declare; section 3 of the specification lists them. The
  timestamp is kept in nanoseconds. \<open>objid\<close> and \<open>payload\<close> are the fields of models.py.
\<close>

record object =
  objid :: bytes
  payload :: "payload_items option"
  obj_type :: string
  file_size :: "int option"
  last_modified_time :: "int option"

text \<open>\<^verbatim>\<open>ObjectRelation\<close> (table \<^verbatim>\<open>object_relations\<close>): an edge from parent to child.\<close>

record object_relation =
  rel_parent :: bytes
  rel_child :: bytes
  rel_name :: "string option"

text \<open>\<^verbatim>\<open>Snapshot\<close> (table \<^verbatim>\<open>snapshots\<close>).\<close>

record snapshot =
  ss_path :: string
  ss_root_id :: bytes
  ss_date :: int

datatype log_level = Debug | Info | Warning | Exception

text \<open>
  The durable state: the tables in row order, the highest \<^verbatim>\<open>fsentry\<close> id handed out
  so far, what was uploaded to the remote store, and the lines logged.
\<close>

record state =
  fsentries :: "fsentry list"
  objects :: "object list"
  object_relations :: "object_relation list"
  snapshots :: "snapshot list"
  fsentry_seq :: nat
  remote_objects :: "(bytes \<times> payload_items) list"
  remote_snapshots :: "snapshot list"
  logged :: "(log_level \<times> string) list"

definition logmsg :: "log_level \<Rightarrow> string \<Rightarrow> state \<Rightarrow> state" where
  "logmsg level msg s = s\<lparr>logged := logged s @ [(level, msg)]\<rparr>"

subsection \<open>Queries and statements on \<^verbatim>\<open>fsentry\<close>\<close>

text \<open>\<^verbatim>\<open>self.children.all()\<close>: the rows whose parent is this entry, in table order.\<close>

definition children_all :: "fsentry \<Rightarrow> state \<Rightarrow> fsentry list" where
  "children_all self s =
     (case fs_id self of
        None \<Rightarrow> []
      | Some i \<Rightarrow> filter (\<lambda>r. parent_id r = Some i) (fsentries s))"

text \<open>
  \<^verbatim>\<open>ON DELETE CASCADE\<close> from parent to child, done by the database: deleting the
  victims deletes the rows whose parent is a victim, and so on. Every round but the
  last removes a row, so as many rounds as the table has rows are enough.
\<close>

fun cascade_delete :: "nat \<Rightarrow> fsentry list \<Rightarrow> fsentry list \<Rightarrow> fsentry list" where
  "cascade_delete 0 victims rows = filter (\<lambda>r. r \<notin> set victims) rows"
| "cascade_delete (Suc n) victims rows =
     (let rest = filter (\<lambda>r. r \<notin> set victims) rows;
          orphans = filter (\<lambda>r. parent_id r \<noteq> None \<and> parent_id r \<in> fs_id ` set victims) rest
      in if orphans = [] then rest else cascade_delete n orphans rest)"

definition delete_rows :: "(fsentry \<Rightarrow> bool) \<Rightarrow> state \<Rightarrow> state" where
  "delete_rows doomed s =
     s\<lparr>fsentries :=
         cascade_delete (length (fsentries s)) (filter doomed (fsentries s)) (fsentries s)\<rparr>"

text \<open>\<^verbatim>\<open>entry.delete()\<close>: the row with this id goes, and the instance loses its id.\<close>

definition delete_entry :: "fsentry \<Rightarrow> state \<Rightarrow> fsentry \<times> state" where
  "delete_entry e s =
     (e\<lparr>fs_id := None\<rparr>,
      delete_rows (\<lambda>r. fs_id e \<noteq> None \<and> fs_id r = fs_id e) s)"

text \<open>\<^verbatim>\<open>self.children.all().delete()\<close>.\<close>

definition delete_children :: "fsentry \<Rightarrow> state \<Rightarrow> state" where
  "delete_children self s =
     delete_rows (\<lambda>r. fs_id self \<noteq> None \<and> parent_id r = fs_id self) s"

text \<open>The next id of the \<^verbatim>\<open>AUTOINCREMENT\<close> primary key.\<close>

definition fresh_id :: "state \<Rightarrow> nat" where
  "fresh_id s = Suc (fold max (List.map_filter fs_id (fsentries s)) (fsentry_seq s))"

text \<open>
  \<^verbatim>\<open>entry.save()\<close>: an \<^verbatim>\<open>UPDATE\<close> of the row with the instance's id; an
  \<^verbatim>\<open>INSERT\<close> when no row was updated or the instance has no id.
\<close>

definition save_entry :: "fsentry \<Rightarrow> state \<Rightarrow> fsentry \<times> state" where
  "save_entry e s =
     (case fs_id e of
        None \<Rightarrow>
          (let e' = e\<lparr>fs_id := Some (fresh_id s)\<rparr>
           in (e', s\<lparr>fsentries := fsentries s @ [e'], fsentry_seq := fresh_id s\<rparr>))
      | Some i \<Rightarrow>
          if \<exists>r \<in> set (fsentries s). fs_id r = Some i
          then (e, s\<lparr>fsentries := map (\<lambda>r. if fs_id r = Some i then e else r) (fsentries s)\<rparr>)
          else (e, s\<lparr>fsentries := fsentries s @ [e]\<rparr>))"

text \<open>
  A \<^verbatim>\<open>WITH RECURSIVE ... UNION ALL\<close> query: the rows of the initial select are
  queued; each row taken from the queue is a row of the result, and the recursive
  select run on it alone is appended to the queue. On cyclic data the query does not
  end: the fuel bounds the rows produced and \<open>None\<close> is the query that has not
  returned.
\<close>

fun with_recursive :: "nat \<Rightarrow> ('a \<Rightarrow> 'a list) \<Rightarrow> 'a list \<Rightarrow> 'a list option" where
  "with_recursive n step [] = Some []"
| "with_recursive 0 step (x # queue) = None"
| "with_recursive (Suc n) step (x # queue) =
     map_option ((#) x) (with_recursive n step (queue @ step x))"

subsection \<open>\<^verbatim>\<open>FSEntry\<close> methods\<close>

definition update_stat_info :: "fsentry \<Rightarrow> stat_result \<Rightarrow> fsentry" where
  "update_stat_info self stat_res =
     self\<lparr>st_mode := Some (sr_mode stat_res),
          st_mtime_ns := Some (sr_mtime_ns stat_res),
          st_size := Some (sr_size stat_res)\<rparr>"

definition compare_stat_info :: "fsentry \<Rightarrow> stat_result \<Rightarrow> bool" where
  "compare_stat_info self stat_res \<longleftrightarrow>
     st_mode self = Some (sr_mode stat_res) \<and>
     st_mtime_ns self = Some (sr_mtime_ns stat_res) \<and>
     st_size self = Some (sr_size stat_res)"

text \<open>\<^verbatim>\<open>FSEntry.name\<close>.\<close>

definition entry_name :: "fsentry \<Rightarrow> string" where
  "entry_name e = basename (path e)"

text \<open>
  \<^verbatim>\<open>FSEntry.invalidate\<close>: the recursive query collects the id of this entry and,
  row by row, the parent id of each collected id; the update nulls \<^verbatim>\<open>obj_id\<close> on
  every row whose id was collected.
\<close>

definition ancestors_step :: "fsentry list \<Rightarrow> nat \<Rightarrow> nat list" where
  "ancestors_step rows i = List.map_filter parent_id (filter (\<lambda>r. fs_id r = Some i) rows)"

definition invalidate :: "nat \<Rightarrow> fsentry \<Rightarrow> state \<Rightarrow> state option" where
  "invalidate fuel self s =
     (let rows = fsentries s;
          initial = List.map_filter fs_id
                      (filter (\<lambda>r. fs_id self \<noteq> None \<and> fs_id r = fs_id self) rows)
      in case with_recursive fuel (ancestors_step rows) initial of
           None \<Rightarrow> None
         | Some ancestors \<Rightarrow>
             Some (s\<lparr>fsentries :=
                      map (\<lambda>r. if fs_id r \<in> Some ` set ancestors then r\<lparr>obj_id := None\<rparr> else r)
                        rows\<rparr>))"

text \<open>
  The loop "Create new entries" of \<^verbatim>\<open>FSEntry.scan\<close>. The insert fails on the unique
  path (\<^verbatim>\<open>IntegrityError\<close>) when a row has the new path: that row is fetched and
  re-parented, after the assertion that it is a root.
\<close>

fun create_entries :: "fsentry \<Rightarrow> string list \<Rightarrow> state \<Rightarrow> state outcome" where
  "create_entries self [] s = Returns s"
| "create_entries self (newname # names) s =
     (let newpath = path_join (path self) newname
      in case find (\<lambda>r. path r = newpath) (fsentries s) of
           None \<Rightarrow>
             (let newentry = \<lparr>fs_id = Some (fresh_id s), obj_id = None, path = newpath,
                               parent_id = fs_id self, new = True, st_mode = None,
                               st_mtime_ns = None, st_size = None\<rparr>
              in create_entries self names
                   (logmsg Info (''New path     : '' @ newpath)
                      (s\<lparr>fsentries := fsentries s @ [newentry], fsentry_seq := fresh_id s\<rparr>)))
         | Some newentry \<Rightarrow>
             if parent_id newentry \<noteq> None then Raises AssertionError
             else create_entries self names
                    ((logmsg Warning
                        (''Trying to create path but already exists. Reparenting: '' @ newpath) s)
                     \<lparr>fsentries :=
                        map (\<lambda>r. if fs_id r = fs_id newentry then r\<lparr>parent_id := fs_id self\<rparr> else r)
                          (fsentries s)\<rparr>))"

text \<open>The loop "Delete old entries".\<close>

fun delete_old_entries :: "string list \<Rightarrow> fsentry list \<Rightarrow> state \<Rightarrow> state" where
  "delete_old_entries entries [] s = s"
| "delete_old_entries entries (child # children) s =
     (if entry_name child \<notin> set entries
      then delete_old_entries entries children
             (snd (delete_entry child (logmsg Info (''deleting from dir: '' @ path child) s)))
      else delete_old_entries entries children s)"

text \<open>
  The directory branch of \<^verbatim>\<open>FSEntry.scan\<close>. The names of the listing are a Python set;
  the new ones are taken here in the order of the listing. A permission error of the
  listing leaves the set empty; any other error of the listing is not caught.
\<close>

definition scan_directory :: "filesystem \<Rightarrow> fsentry \<Rightarrow> state \<Rightarrow> state outcome" where
  "scan_directory fs self s =
     (let children = children_all self s
      in case (case fs_listdir fs (path self) of
                 Inr names \<Rightarrow> Returns (remdups names, s)
               | Inl PermissionError \<Rightarrow>
                   Returns ([], logmsg Warning (''Permission denied: '' @ path self) s)
               | Inl err \<Rightarrow> Raises (OSError err)) of
           Raises e \<Rightarrow> Raises e
         | Returns (entries, s1) \<Rightarrow>
             (case create_entries self
                     (filter (\<lambda>n. n \<notin> set (map entry_name children)) entries) s1 of
                Raises e \<Rightarrow> Raises e
              | Returns s2 \<Rightarrow> Returns (delete_old_entries entries children s2)))"

text \<open>
  \<^verbatim>\<open>FSEntry.scan\<close>. The body runs in a transaction: when it raises, the tables are
  as before the call (and the lines logged by the failed call are not kept).
\<close>

definition scan :: "nat \<Rightarrow> filesystem \<Rightarrow> fsentry \<Rightarrow> state \<Rightarrow> (fsentry outcome \<times> state) option" where
  "scan fuel fs self s0 =
     (let s = logmsg Debug (''Entering scan for '' @ path self) s0
      in case fs_lstat fs (path self) of
           Inl err \<Rightarrow>
             if err = FileNotFoundError \<or> err = NotADirectoryError
             then (let (self', s') =
                         delete_entry self (logmsg Info (''Not found, deleting: '' @ path self) s)
                   in Some (Returns self', s'))
             else Some (Raises (OSError err), s0)
         | Inr stat_res \<Rightarrow>
             (let s1 = (if st_mode self \<noteq> None \<and> S_ISDIR (the (st_mode self))
                           \<and> \<not> S_ISDIR (sr_mode stat_res)
                        then delete_children self
                               (logmsg Info (''No longer a directory: '' @ path self) s)
                        else s)
              in if \<not> new self \<and> compare_stat_info self stat_res
                 then Some (Returns self, logmsg Debug (''No change to '' @ path self) s1)
                 else
                   (let self1 = update_stat_info (self\<lparr>obj_id := None, new := False\<rparr>) stat_res
                    in case (if S_ISDIR (sr_mode stat_res) then scan_directory fs self1 s1
                             else Returns s1) of
                         Raises e \<Rightarrow> Some (Raises e, s0)
                       | Returns s2 \<Rightarrow>
                           (let (self2, s3) =
                                  save_entry self1 (logmsg Info (''Entry updated: '' @ path self) s2)
                            in case invalidate fuel self2 s3 of
                                 None \<Rightarrow> None
                               | Some s4 \<Rightarrow> Some (Returns self2, s4)))))"

text \<open>
  The loop \<^verbatim>\<open>for entry in qs.iterator(): entry.scan()\<close> of scan.py, over the entries
  the query yields; an exception of one scan ends the loop.
\<close>

fun scan_each :: "nat \<Rightarrow> filesystem \<Rightarrow> fsentry list \<Rightarrow> state \<Rightarrow> (unit outcome \<times> state) option" where
  "scan_each fuel fs [] s = Some (Returns (), s)"
| "scan_each fuel fs (entry # entries) s =
     (case scan fuel fs entry s of
        None \<Rightarrow> None
      | Some (Raises e, s') \<Rightarrow> Some (Raises e, s')
      | Some (Returns entry', s') \<Rightarrow> scan_each fuel fs entries s')"

section \<open>The garbage collector\<close>

text \<open>\<^verbatim>\<open>int.from_bytes(objid, 'little')\<close>.\<close>

definition int_from_bytes_little :: "bytes \<Rightarrow> int" where
  "int_from_bytes_little bs = foldr (\<lambda>b acc. uint b + 256 * acc) bs 0"

text \<open>
  What \<^verbatim>\<open>Object.collect_garbage\<close> takes from floating-point arithmetic and from the
  system's random source: \<open>filter_bits n\<close> is the value of
  \<^verbatim>\<open>int(math.ceil((n * math.log(p)) / math.log(1 / math.pow(2, math.log(2)))))\<close>,
  \<open>hash_count m n\<close> the value of \<^verbatim>\<open>int(round(math.log(2) * m / n))\<close> for \<open>n\<close> other
  than 0, and \<open>getrandbits i\<close> the \<open>i\<close>-th draw of \<^verbatim>\<open>r.getrandbits(256)\<close>.
\<close>

record gc_env =
  filter_bits :: "nat \<Rightarrow> int"
  hash_count :: "int \<Rightarrow> nat \<Rightarrow> int"
  getrandbits :: "nat \<Rightarrow> int"

text \<open>
  The position a Python sequence of length \<open>n\<close> reads for index \<open>i\<close>: negative
  indices count from the end, and \<open>None\<close> is \<^verbatim>\<open>IndexError\<close>.
\<close>

definition py_index :: "nat \<Rightarrow> int \<Rightarrow> nat option" where
  "py_index n i =
     (if 0 \<le> i \<and> i < int n then Some (nat i)
      else if - int n \<le> i \<and> i < 0 then Some (nat (int n + i))
      else None)"

text \<open>
  The body of the loop \<^verbatim>\<open>for h in hashes\<close> of the reachability pass:
  \<^verbatim>\<open>h ^= objid_int; h %= m; bytepos, bitpos = divmod(h, 8); bloom[bytepos] |= 1 << bitpos\<close>.
  A \<^verbatim>\<open>bytearray\<close> refuses a value outside \<^verbatim>\<open>range(256)\<close>.
\<close>

definition bloom_set :: "int \<Rightarrow> int \<Rightarrow> int \<Rightarrow> int list \<Rightarrow> int list outcome" where
  "bloom_set m h objid_int bloom =
     (if m = 0 then Raises ZeroDivisionError
      else
        (let h' = (h XOR objid_int) mod m;
             bytepos = h' div 8;
             bitpos = h' mod 8
         in case py_index (length bloom) bytepos of
              None \<Rightarrow> Raises IndexError
            | Some i \<Rightarrow>
                (let v = (bloom ! i) OR push_bit (nat bitpos) 1
                 in if 0 \<le> v \<and> v < 256 then Returns (bloom[i := v]) else Raises ValueError)))"

fun mark_object :: "int \<Rightarrow> int list \<Rightarrow> int \<Rightarrow> int list \<Rightarrow> int list outcome" where
  "mark_object m [] objid_int bloom = Returns bloom"
| "mark_object m (h # hashes) objid_int bloom =
     (case bloom_set m h objid_int bloom of
        Raises e \<Rightarrow> Raises e
      | Returns bloom' \<Rightarrow> mark_object m hashes objid_int bloom')"

text \<open>
  The reachability pass: the recursive query seeded from \<^verbatim>\<open>snapshots.root_id\<close> and
  following \<^verbatim>\<open>object_relations\<close> from parent to child, each row marked in the filter
  as the cursor yields it. \<open>None\<close> is the pass that has not ended within the fuel.
\<close>

definition relation_children :: "object_relation list \<Rightarrow> bytes \<Rightarrow> bytes list" where
  "relation_children rels parent = map rel_child (filter (\<lambda>r. rel_parent r = parent) rels)"

fun mark_reachable ::
  "nat \<Rightarrow> (bytes \<Rightarrow> bytes list) \<Rightarrow> int \<Rightarrow> int list \<Rightarrow> bytes list \<Rightarrow> int list
     \<Rightarrow> int list outcome option" where
  "mark_reachable n step m hashes [] bloom = Some (Returns bloom)"
| "mark_reachable 0 step m hashes (row # queue) bloom = None"
| "mark_reachable (Suc n) step m hashes (row # queue) bloom =
     (case mark_object m hashes (int_from_bytes_little row) bloom of
        Raises e \<Rightarrow> Some (Raises e)
      | Returns bloom' \<Rightarrow> mark_reachable n step m hashes (queue @ step row) bloom')"

text \<open>The inner function \<^verbatim>\<open>hash_match\<close>; its result is the masked byte.\<close>

definition hash_match :: "int \<Rightarrow> int list \<Rightarrow> int \<Rightarrow> int \<Rightarrow> int outcome" where
  "hash_match m bloom h objid_int =
     (if m = 0 then Raises ZeroDivisionError
      else
        (let h' = (h XOR objid_int) mod m;
             bytepos = h' div 8;
             bitpos = h' mod 8
         in case py_index (length bloom) bytepos of
              None \<Rightarrow> Raises IndexError
            | Some i \<Rightarrow> Returns ((bloom ! i) AND push_bit (nat bitpos) 1)))"

text \<open>\<^verbatim>\<open>all(hash_match(h, objid) for h in hashes)\<close>, which stops at the first zero.\<close>

fun all_match :: "int \<Rightarrow> int list \<Rightarrow> int list \<Rightarrow> int \<Rightarrow> bool outcome" where
  "all_match m bloom [] objid_int = Returns True"
| "all_match m bloom (h # hashes) objid_int =
     (case hash_match m bloom h objid_int of
        Raises e \<Rightarrow> Raises e
      | Returns v \<Rightarrow> if v = 0 then Returns False else all_match m bloom hashes objid_int)"

text \<open>
  The sweep pass, a generator: the objects it yields, in order, and the exception
  that ended it, if one did.
\<close>

fun sweep :: "int \<Rightarrow> int list \<Rightarrow> int list \<Rightarrow> object list \<Rightarrow> object list \<times> exn option" where
  "sweep m bloom hashes [] = ([], None)"
| "sweep m bloom hashes (obj # objs) =
     (case all_match m bloom hashes (int_from_bytes_little (objid obj)) of
        Raises e \<Rightarrow> ([], Some e)
      | Returns matched \<Rightarrow>
          (let (garbage, err) = sweep m bloom hashes objs
           in (if matched then garbage else obj # garbage, err)))"

text \<open>
  \<^verbatim>\<open>Object.collect_garbage\<close>. The division by \<^verbatim>\<open>num_objects\<close> in the computation of
  \<open>k\<close> raises when the table is empty. \<^verbatim>\<open>math.ceil(m/8)\<close> is taken exactly.
\<close>

definition collect_garbage :: "nat \<Rightarrow> gc_env \<Rightarrow> state \<Rightarrow> (object list \<times> exn option) option" where
  "collect_garbage fuel env s =
     (let num_objects = length (objects s);
          m = filter_bits env num_objects
      in if num_objects = 0 then Some ([], Some ZeroDivisionError)
         else
           (let k = hash_count env m num_objects;
                arr_size = - ((- m) div 8)
            in if arr_size < 0 then Some ([], Some ValueError)
               else
                 (let bloom = replicate (nat arr_size) 0;
                      hashes = map (getrandbits env) [0..<nat k]
                  in case mark_reachable fuel (relation_children (object_relations s)) m hashes
                            (map ss_root_id (snapshots s)) bloom of
                       None \<Rightarrow> None
                     | Some (Raises e) \<Rightarrow> Some ([], Some e)
                     | Some (Returns bloom') \<Rightarrow> Some (sweep m bloom' hashes (objects s)))))"

section \<open>The backup engine\<close>

text \<open>
  What \<^verbatim>\<open>backup_iterator\<close> yields: the payload, the unsaved \<^verbatim>\<open>Object\<close> and the unsaved
  \<^verbatim>\<open>ObjectRelation\<close> list. The unsaved instances have no object id yet.
\<close>

record unsaved_object =
  uo_type :: string
  uo_file_size :: "int option"
  uo_last_modified_time :: "int option"

record unsaved_relation =
  ur_child :: bytes
  ur_name :: "string option"

type_synonym yielded = "payload_items \<times> unsaved_object \<times> unsaved_relation list"

text \<open>
  The repository object (\<^verbatim>\<open>backathon.repository.Repository\<close>, not among the sources)
  is a parameter: its methods \<^verbatim>\<open>push_object\<close> and \<^verbatim>\<open>put_snapshot\<close>, which may change the
  state or raise, and its setting \<^verbatim>\<open>backup_inline_threshold\<close>.
\<close>

record repo =
  push_object :: "yielded \<Rightarrow> state \<Rightarrow> object outcome \<times> state"
  put_snapshot :: "snapshot \<Rightarrow> state \<Rightarrow> unit outcome \<times> state"
  backup_inline_threshold :: int

text \<open>The default of the parameter \<^verbatim>\<open>inline_threshold\<close> of \<^verbatim>\<open>backup_iterator\<close>.\<close>

definition default_inline_threshold :: int where
  "default_inline_threshold = 2 ^ 21"

text \<open>\<^verbatim>\<open>_open_file\<close>: with \<^verbatim>\<open>O_NOATIME\<close> where the platform has it, again without it on
  a permission error.\<close>

definition open_file :: "filesystem \<Rightarrow> string \<Rightarrow> os_error + file_handle" where
  "open_file fs p =
     (if \<not> fs_has_noatime fs then fs_open fs p False
      else case fs_open fs p True of
             Inl PermissionError \<Rightarrow> fs_open fs p False
           | r \<Rightarrow> r)"

text \<open>
  Modelled from the spec: \<^verbatim>\<open>chunker.FixedChunker\<close> is not among the sources. Section
  4.B: it reads the stream in windows of a fixed size and produces the pairs of
  offset and bytes, the last chunk possibly short.
\<close>

fun chunks_from :: "nat \<Rightarrow> nat \<Rightarrow> int \<Rightarrow> bytes \<Rightarrow> (int \<times> bytes) list" where
  "chunks_from 0 width pos data = []"
| "chunks_from (Suc n) width pos data =
     (if data = [] \<or> width = 0 then []
      else (pos, take width data)
             # chunks_from n width (pos + int (length (take width data))) (drop width data))"

definition fixed_chunker :: "nat \<Rightarrow> bytes \<Rightarrow> (int \<times> bytes) list" where
  "fixed_chunker width data = chunks_from (length data) width 0 data"

text \<open>
  The chunks the loop \<^verbatim>\<open>for pos, chunk in chunker.FixedChunker(fobj)\<close> gets before the
  read that raises, and that error; \<^verbatim>\<open>fobj.read()\<close> meets the fault of the file, if it
  has one.
\<close>

definition chunk_reads :: "nat \<Rightarrow> file_handle \<Rightarrow> (int \<times> bytes) list \<times> os_error option" where
  "chunk_reads width fh =
     (case fh_fault fh of
        None \<Rightarrow> (fixed_chunker width (fh_data fh), None)
      | Some (n, err) \<Rightarrow> (take n (fixed_chunker width (fh_data fh)), Some err))"

definition read_all :: "file_handle \<Rightarrow> os_error + bytes" where
  "read_all fh = (case fh_fault fh of None \<Rightarrow> Inr (fh_data fh) | Some (n, err) \<Rightarrow> Inl err)"

text \<open>\<^verbatim>\<open>os.fsencode\<close> of a name: its bytes.\<close>

definition fsencode :: "string \<Rightarrow> bytes" where
  "fsencode name = map (\<lambda>c. of_nat (of_char c)) name"

text \<open>Decimal digits of a count, for a log line.\<close>

function decimal :: "nat \<Rightarrow> string" where
  "decimal n = (if n < 10 then [char_of (48 + n)]
                else decimal (n div 10) @ [char_of (48 + n mod 10)])"
  by pat_completeness auto
termination
  by (relation "measure id") auto

text \<open>The payloads, as the sequences of values packed into the buffer.\<close>

definition blob_yield :: "bytes \<Rightarrow> yielded" where
  "blob_yield chunk =
     ([MStr ''blob'', MBin chunk],
      \<lparr>uo_type = ''blob'', uo_file_size = None, uo_last_modified_time = None\<rparr>,
      [])"

definition inode_info :: "stat_result \<Rightarrow> msgpack" where
  "inode_info stat_res =
     MMap [(''size'', MInt (sr_size stat_res)), (''inode'', MInt (sr_ino stat_res)),
           (''uid'', MInt (sr_uid stat_res)), (''gid'', MInt (sr_gid stat_res)),
           (''mode'', MInt (sr_mode stat_res)), (''mtime'', MInt (sr_mtime_ns stat_res)),
           (''atime'', MInt (sr_atime_ns stat_res))]"

definition inode_object :: "stat_result \<Rightarrow> unsaved_object" where
  "inode_object stat_res =
     \<lparr>uo_type = ''inode'', uo_file_size = Some (sr_size stat_res),
      uo_last_modified_time = Some (sr_mtime_ns stat_res)\<rparr>"

definition immediate_item :: "bytes \<Rightarrow> msgpack" where
  "immediate_item data = MArray [MStr ''immediate'', MBin data]"

definition chunklist_item :: "(int \<times> bytes) list \<Rightarrow> msgpack" where
  "chunklist_item chunk_list =
     MArray [MStr ''chunklist'', MArray (map (\<lambda>(pos, oid). MArray [MInt pos, MBin oid]) chunk_list)]"

definition inode_yield :: "stat_result \<Rightarrow> msgpack \<Rightarrow> unsaved_relation list \<Rightarrow> yielded" where
  "inode_yield stat_res contents relations =
     ([MStr ''inode'', inode_info stat_res, contents], inode_object stat_res, relations)"

definition tree_info :: "stat_result \<Rightarrow> msgpack" where
  "tree_info stat_res =
     MMap [(''uid'', MInt (sr_uid stat_res)), (''gid'', MInt (sr_gid stat_res)),
           (''mode'', MInt (sr_mode stat_res)), (''mtime'', MInt (sr_mtime_ns stat_res)),
           (''atime'', MInt (sr_atime_ns stat_res))]"

text \<open>
  The tree payload and relations of a directory whose children all have an object.
  The relation's name is the child's name (its lossy decoding is not modelled).
\<close>

definition tree_yield :: "stat_result \<Rightarrow> fsentry list \<Rightarrow> yielded" where
  "tree_yield stat_res children =
     ([MStr ''tree'', tree_info stat_res,
       MArray (map (\<lambda>c. MArray [MBin (fsencode (entry_name c)), MBin (the (obj_id c))]) children)],
      \<lparr>uo_type = ''tree'', uo_file_size = None,
       uo_last_modified_time = Some (sr_mtime_ns stat_res)\<rparr>,
      map (\<lambda>c. \<lparr>ur_child = the (obj_id c), ur_name = Some (entry_name c)\<rparr>) children)"

text \<open>
  The generator \<^verbatim>\<open>backup_iterator\<close> is embedded together with the dialogue its driver
  holds with it: \<open>send\<close> is what the driver does with a yielded tuple (it returns the
  saved object, which the generator receives, or raises, which ends the driver and
  the generator with it). The result carries the entry as the generator left it and
  the tuples yielded, in order.

  The chunk loop: each chunk is yielded as a blob, and the object sent back goes to
  the chunk list and the relations.
\<close>

fun send_chunks ::
  "(yielded \<Rightarrow> state \<Rightarrow> object outcome \<times> state) \<Rightarrow> (int \<times> bytes) list \<Rightarrow> (int \<times> bytes) list
     \<Rightarrow> yielded list \<Rightarrow> state \<Rightarrow> ((int \<times> bytes) list \<times> yielded list) outcome \<times> state" where
  "send_chunks send [] chunk_list trace s = (Returns (chunk_list, trace), s)"
| "send_chunks send ((pos, chunk) # rest) chunk_list trace s =
     (case send (blob_yield chunk) s of
        (Raises e, s') \<Rightarrow> (Raises e, s')
      | (Returns chunk_obj, s') \<Rightarrow>
          send_chunks send rest (chunk_list @ [(pos, objid chunk_obj)])
            (trace @ [blob_yield chunk]) s')"

text \<open>The two handlers of the \<^verbatim>\<open>try\<close> around the reads of a regular file.\<close>

definition on_read_error ::
  "os_error \<Rightarrow> fsentry \<Rightarrow> yielded list \<Rightarrow> state \<Rightarrow> (fsentry \<times> yielded list) outcome \<times> state" where
  "on_read_error err fsentry trace s =
     (let s1 = (if err = FileNotFoundError
                then logmsg Info (''File disappeared: '' @ path fsentry) s
                else logmsg Exception
                       (''Error in system call when reading file '' @ path fsentry) s);
          (fsentry', s2) = delete_entry fsentry s1
      in (Returns (fsentry', trace), s2))"

text \<open>The last yield of a branch: the object sent back becomes \<^verbatim>\<open>fsentry.obj\<close>, and the
  entry is saved.\<close>

definition send_final ::
  "(yielded \<Rightarrow> state \<Rightarrow> object outcome \<times> state) \<Rightarrow> yielded \<Rightarrow> string \<Rightarrow> fsentry \<Rightarrow> yielded list
     \<Rightarrow> state \<Rightarrow> (fsentry \<times> yielded list) outcome \<times> state" where
  "send_final send y msg fsentry trace s =
     (case send y s of
        (Raises e, s') \<Rightarrow> (Raises e, s')
      | (Returns obj, s') \<Rightarrow>
          (let (fsentry', s'') =
                 save_entry (fsentry\<lparr>obj_id := Some (objid obj)\<rparr>) (logmsg Info msg s')
           in (Returns (fsentry', trace @ [y]), s'')))"

text \<open>The branch "Regular File" of \<^verbatim>\<open>backup_iterator\<close>.\<close>

definition backup_regular_file ::
  "filesystem \<Rightarrow> nat \<Rightarrow> (yielded \<Rightarrow> state \<Rightarrow> object outcome \<times> state) \<Rightarrow> int \<Rightarrow> stat_result
     \<Rightarrow> fsentry \<Rightarrow> state \<Rightarrow> (fsentry \<times> yielded list) outcome \<times> state" where
  "backup_regular_file fs chunk_size send inline_threshold stat_res fsentry s =
     (case open_file fs (path fsentry) of
        Inl err \<Rightarrow> on_read_error err fsentry [] s
      | Inr fobj \<Rightarrow>
          if sr_size stat_res < inline_threshold
          then (case read_all fobj of
                  Inl err \<Rightarrow> on_read_error err fsentry [] s
                | Inr data \<Rightarrow>
                    send_final send (inode_yield stat_res (immediate_item data) [])
                      (''Backed up file into '' @ decimal 1 @ '' objects: '' @ path fsentry)
                      fsentry [] s)
          else
            (let (chunks, fault) = chunk_reads chunk_size fobj
             in case send_chunks send chunks [] [] s of
                  (Raises e, s') \<Rightarrow> (Raises e, s')
                | (Returns (chunk_list, trace), s') \<Rightarrow>
                    (case fault of
                       Some err \<Rightarrow> on_read_error err fsentry trace s'
                     | None \<Rightarrow>
                         send_final send
                           (inode_yield stat_res (chunklist_item chunk_list)
                              (map (\<lambda>(pos, oid). \<lparr>ur_child = oid, ur_name = None\<rparr>) chunk_list))
                           (''Backed up file into '' @ decimal (length chunk_list + 1)
                              @ '' objects: '' @ path fsentry)
                           fsentry trace s')))"

text \<open>The branch "Directory".\<close>

definition backup_directory ::
  "(yielded \<Rightarrow> state \<Rightarrow> object outcome \<times> state) \<Rightarrow> stat_result \<Rightarrow> fsentry \<Rightarrow> state
     \<Rightarrow> (fsentry \<times> yielded list) outcome \<times> state" where
  "backup_directory send stat_res fsentry s =
     (let children = children_all fsentry s
      in if \<exists>c \<in> set children. obj_id c = None then (Raises DependencyError, s)
         else send_final send (tree_yield stat_res children)
                (''Backed up dir: '' @ path fsentry) fsentry [] s)"

text \<open>\<^verbatim>\<open>backup_iterator\<close>.\<close>

definition backup_iterator ::
  "filesystem \<Rightarrow> nat \<Rightarrow> (yielded \<Rightarrow> state \<Rightarrow> object outcome \<times> state) \<Rightarrow> int \<Rightarrow> fsentry \<Rightarrow> state
     \<Rightarrow> (fsentry \<times> yielded list) outcome \<times> state" where
  "backup_iterator fs chunk_size send inline_threshold fsentry s =
     (case fs_lstat fs (path fsentry) of
        Inl err \<Rightarrow>
          if err = FileNotFoundError \<or> err = NotADirectoryError
          then (let (fsentry', s') =
                      delete_entry fsentry (logmsg Info (''File disappeared: '' @ path fsentry) s)
                in (Returns (fsentry', []), s'))
          else (Raises (OSError err), s)
      | Inr stat_res \<Rightarrow>
          (let fsentry1 = update_stat_info fsentry stat_res
           in if S_ISREG (sr_mode stat_res)
              then backup_regular_file fs chunk_size send inline_threshold stat_res fsentry1 s
              else if S_ISDIR (sr_mode stat_res)
              then backup_directory send stat_res fsentry1 s
              else (let (fsentry', s') =
                          delete_entry fsentry1
                            (logmsg Warning (''Unknown file type, not backing up '' @ path fsentry) s)
                    in (Returns (fsentry', []), s'))))"

text \<open>
  \<^verbatim>\<open>backup_entry\<close>: the driver sends each yielded tuple to \<^verbatim>\<open>repo.push_object\<close> until
  \<^verbatim>\<open>StopIteration\<close>, and ends with the assertion on the entry. The \<^verbatim>\<open>except\<close> clause
  also catches a \<^verbatim>\<open>StopIteration\<close> that \<^verbatim>\<open>push_object\<close> raises (the generator itself
  raises none): the entry is then as the generator had it at the yield, with the id
  and the object it came with.
\<close>

definition assert_backed_up :: "fsentry \<Rightarrow> state \<Rightarrow> fsentry outcome \<times> state" where
  "assert_backed_up entry s =
     (if obj_id entry \<noteq> None \<or> fs_id entry = None then (Returns entry, s)
      else (Raises AssertionError, s))"

definition backup_entry ::
  "filesystem \<Rightarrow> nat \<Rightarrow> repo \<Rightarrow> fsentry \<Rightarrow> state \<Rightarrow> fsentry outcome \<times> state" where
  "backup_entry fs chunk_size repo entry s =
     (case backup_iterator fs chunk_size (push_object repo) (backup_inline_threshold repo) entry s of
        (Raises e, s') \<Rightarrow>
          if e = StopIteration
          then assert_backed_up
                 (case fs_lstat fs (path entry) of
                    Inl err \<Rightarrow> entry
                  | Inr stat_res \<Rightarrow> update_stat_info entry stat_res) s'
          else (Raises e, s')
      | (Returns (entry', trace), s') \<Rightarrow> assert_backed_up entry' s')"








section \<open>Reading children back from a payload\<close>

text \<open>\<^verbatim>\<open>next(payload_items)\<close>.\<close>

definition py_next :: "payload_items \<Rightarrow> (msgpack \<times> payload_items) outcome" where
  "py_next items = (case items of [] \<Rightarrow> Raises StopIteration | x # rest \<Rightarrow> Returns (x, rest))"

text \<open>Iteration over an unpacked value: bytes give integers, an integer is not iterable.\<close>

definition py_iter :: "msgpack \<Rightarrow> msgpack list outcome" where
  "py_iter v =
     (case v of
        MArray xs \<Rightarrow> Returns xs
      | MBin bs \<Rightarrow> Returns (map (\<lambda>b. MInt (uint b)) bs)
      | MStr cs \<Rightarrow> Returns (map (\<lambda>c. MStr [c]) cs)
      | MMap kvs \<Rightarrow> Returns (map (\<lambda>(k, x). MStr k) kvs)
      | MNil \<Rightarrow> Raises TypeError
      | MBool b \<Rightarrow> Raises TypeError
      | MInt i \<Rightarrow> Raises TypeError)"

text \<open>The subscript \<^verbatim>\<open>v[i]\<close> with an integer \<open>i\<close>.\<close>

definition py_getitem :: "msgpack \<Rightarrow> int \<Rightarrow> msgpack outcome" where
  "py_getitem v i =
     (case v of
        MArray xs \<Rightarrow>
          (case py_index (length xs) i of None \<Rightarrow> Raises IndexError | Some j \<Rightarrow> Returns (xs ! j))
      | MBin bs \<Rightarrow>
          (case py_index (length bs) i of
             None \<Rightarrow> Raises IndexError
           | Some j \<Rightarrow> Returns (MInt (uint (bs ! j))))
      | MStr cs \<Rightarrow>
          (case py_index (length cs) i of
             None \<Rightarrow> Raises IndexError
           | Some j \<Rightarrow> Returns (MStr [cs ! j]))
      | MMap kvs \<Rightarrow> Raises KeyError
      | MNil \<Rightarrow> Raises TypeError
      | MBool b \<Rightarrow> Raises TypeError
      | MInt n \<Rightarrow> Raises TypeError)"

text \<open>The comprehension \<^verbatim>\<open>[c[1] for c in ...]\<close> over the elements iterated.\<close>

fun second_of_each :: "msgpack list \<Rightarrow> msgpack list outcome" where
  "second_of_each [] = Returns []"
| "second_of_each (c # cs) =
     (case py_getitem c 1 of
        Raises e \<Rightarrow> Raises e
      | Returns x \<Rightarrow>
          (case second_of_each cs of Raises e \<Rightarrow> Raises e | Returns xs \<Rightarrow> Returns (x # xs)))"

definition children_of_item :: "msgpack \<Rightarrow> msgpack list outcome" where
  "children_of_item v = (case py_iter v of Raises e \<Rightarrow> Raises e | Returns cs \<Rightarrow> second_of_each cs)"

text \<open>\<^verbatim>\<open>Object.calculate_children\<close>.\<close>

definition calculate_children :: "object \<Rightarrow> msgpack list outcome" where
  "calculate_children self =
     (case payload self of
        None \<Rightarrow> Returns []
      | Some [] \<Rightarrow> Returns []
      | Some (objtype # items1) \<Rightarrow>
          if objtype = MStr ''tree'' then
            (case py_next items1 of
               Raises e \<Rightarrow> Raises e
             | Returns (info, items2) \<Rightarrow>
                 (case py_next items2 of
                    Raises e \<Rightarrow> Raises e
                  | Returns (entries, items3) \<Rightarrow> children_of_item entries))
          else if objtype = MStr ''inode'' then
            (case py_next items1 of
               Raises e \<Rightarrow> Raises e
             | Returns (info, items2) \<Rightarrow>
                 (case py_next items2 of
                    Raises e \<Rightarrow> Raises e
                  | Returns (contents, items3) \<Rightarrow>
                      (case py_getitem contents 1 of
                         Raises e \<Rightarrow> Raises e
                       | Returns chunks \<Rightarrow> children_of_item chunks)))
          else Returns [])"

section \<open>Deleting an object\<close>

text \<open>
  \<^verbatim>\<open>Object.delete()\<close> under the \<^verbatim>\<open>on_delete\<close> rules that models.py declares for the
  foreign keys to \<^verbatim>\<open>Object\<close>, as Django applies them: \<^verbatim>\<open>PROTECT\<close> for \<^verbatim>\<open>Snapshot.root\<close>
  (the deletion is refused with \<^verbatim>\<open>ProtectedError\<close> while a snapshot row refers to the
  object), \<^verbatim>\<open>CASCADE\<close> for \<^verbatim>\<open>ObjectRelation.parent\<close> and \<^verbatim>\<open>ObjectRelation.child\<close>,
  \<^verbatim>\<open>SET_NULL\<close> for \<^verbatim>\<open>FSEntry.obj\<close>.
\<close>

datatype on_delete = CASCADE | PROTECT | SET_NULL | DO_NOTHING

definition snapshot_root_on_delete :: on_delete where
  "snapshot_root_on_delete = PROTECT"

definition delete_object :: "bytes \<Rightarrow> state \<Rightarrow> unit outcome \<times> state" where
  "delete_object oid s =
     (if snapshot_root_on_delete = PROTECT \<and> (\<exists>ss \<in> set (snapshots s). ss_root_id ss = oid)
      then (Raises ProtectedError, s)
      else (Returns (),
            s\<lparr>objects := filter (\<lambda>obj. objid obj \<noteq> oid) (objects s),
              object_relations :=
                filter (\<lambda>r. rel_parent r \<noteq> oid \<and> rel_child r \<noteq> oid) (object_relations s),
              snapshots :=
                (if snapshot_root_on_delete = CASCADE
                 then filter (\<lambda>ss. ss_root_id ss \<noteq> oid) (snapshots s)
                 else snapshots s),
              fsentries :=
                map (\<lambda>e. if obj_id e = Some oid then e\<lparr>obj_id := None\<rparr> else e) (fsentries s)\<rparr>))"

section \<open>Notions of the specification\<close>


text \<open>
  An entry is clean when \<^verbatim>\<open>lstat\<close> succeeds, its \<^verbatim>\<open>new\<close> flag is false and its stored
  stat fields are the ones \<^verbatim>\<open>lstat\<close> returns.
\<close>

definition clean_entry :: "filesystem \<Rightarrow> fsentry \<Rightarrow> bool" where
  "clean_entry fs e \<longleftrightarrow>
     (case fs_lstat fs (path e) of
        Inl err \<Rightarrow> False
      | Inr stat_res \<Rightarrow> \<not> new e \<and> compare_stat_info e stat_res)"

text \<open>
  An object id is reachable when it is the root of a snapshot or is reached from one
  by following \<^verbatim>\<open>object_relations\<close> from parent to child.
\<close>

definition relation_edges :: "state \<Rightarrow> (bytes \<times> bytes) set" where
  "relation_edges s = {(p, c). \<exists>r \<in> set (object_relations s). rel_parent r = p \<and> rel_child r = c}"

definition reachable :: "state \<Rightarrow> bytes \<Rightarrow> bool" where
  "reachable s x \<longleftrightarrow> (\<exists>ss \<in> set (snapshots s). (ss_root_id ss, x) \<in> (relation_edges s)\<^sup>*)"

text \<open>
  Notions for the proofs about the filter: a filter is below another when they have
  the same length and every bit set in the first is set in the second; an object id is
  marked for a salt when \<open>hash_match\<close> returns a non-zero value for them.
\<close>

definition bloom_le :: "int list \<Rightarrow> int list \<Rightarrow> bool" where
  "bloom_le b b' \<longleftrightarrow> length b = length b' \<and> (\<forall>i < length b. \<forall>n. bit (b ! i) n \<longrightarrow> bit (b' ! i) n)"

definition marked :: "int \<Rightarrow> int list \<Rightarrow> int \<Rightarrow> int \<Rightarrow> bool" where
  "marked m bloom h x \<longleftrightarrow> (\<exists>v. hash_match m bloom h x = Returns v \<and> v \<noteq> 0)"


section \<open>Concrete inputs\<close>

text \<open>
  A root directory \<^verbatim>\<open>/r\<close> with one regular file \<^verbatim>\<open>/r/a\<close>, both backed up, and
  filesystems in which nothing changed, in which the file changed, and in which the
  directory changed and cannot be listed.
\<close>

definition ex_dir_stat :: stat_result where
  "ex_dir_stat = \<lparr>sr_mode = 16877, sr_mtime_ns = 10, sr_size = 4096, sr_ino = 1,
                   sr_uid = 0, sr_gid = 0, sr_atime_ns = 5\<rparr>"

definition ex_file_stat :: stat_result where
  "ex_file_stat = \<lparr>sr_mode = 33188, sr_mtime_ns = 7, sr_size = 3, sr_ino = 2,
                    sr_uid = 0, sr_gid = 0, sr_atime_ns = 5\<rparr>"

definition ex_root :: fsentry where
  "ex_root = \<lparr>fs_id = Some 1, obj_id = Some [1], path = ''/r'', parent_id = None,
               new = False, st_mode = Some 16877, st_mtime_ns = Some 10,
               st_size = Some 4096\<rparr>"

definition ex_child :: fsentry where
  "ex_child = \<lparr>fs_id = Some 2, obj_id = Some [2], path = ''/r/a'', parent_id = Some 1,
                new = False, st_mode = Some 33188, st_mtime_ns = Some 7,
                st_size = Some 3\<rparr>"

definition ex_state :: state where
  "ex_state = \<lparr>fsentries = [ex_root, ex_child], objects = [], object_relations = [],
                snapshots = [], fsentry_seq = 2, remote_objects = [],
                remote_snapshots = [], logged = []\<rparr>"

definition ex_fs :: filesystem where
  "ex_fs = \<lparr>fs_lstat = (\<lambda>p. if p = ''/r'' then Inr ex_dir_stat
                            else if p = ''/r/a'' then Inr ex_file_stat
                            else Inl FileNotFoundError),
             fs_listdir = (\<lambda>p. if p = ''/r'' then Inr [''a''] else Inl NotADirectoryError),
             fs_open = (\<lambda>p noatime. if p = ''/r/a''
                                     then Inr \<lparr>fh_data = [120, 121, 122], fh_fault = None\<rparr>
                                     else Inl FileNotFoundError),
             fs_has_noatime = True\<rparr>"



text \<open>
  Three objects: a tree \<open>[1]\<close> that is the root of a snapshot, its child \<open>[2]\<close>, and
  \<open>[3]\<close>, which nothing references. The filter has 19 bits and 4 hashes, as the
  floating-point formulas give for three objects.
\<close>

definition ex_object :: "bytes \<Rightarrow> object" where
  "ex_object i = \<lparr>objid = i, payload = None, obj_type = ''blob'', file_size = None,
                   last_modified_time = None\<rparr>"

definition ex_gc_state :: state where
  "ex_gc_state =
     \<lparr>fsentries = [], objects = [ex_object [1], ex_object [2], ex_object [3]],
      object_relations = [\<lparr>rel_parent = [1], rel_child = [2], rel_name = None\<rparr>],
      snapshots = [\<lparr>ss_path = ''/r'', ss_root_id = [1], ss_date = 0\<rparr>],
      fsentry_seq = 0, remote_objects = [], remote_snapshots = [], logged = []\<rparr>"

definition ex_gc_env :: gc_env where
  "ex_gc_env = \<lparr>filter_bits = (\<lambda>n. 19), hash_count = (\<lambda>m n. 4),
                 getrandbits = (\<lambda>i. 1000 + 7 * int i)\<rparr>"

text \<open>
  A repository that admits objects as section 4.D of the specification describes:
  the object id is a hash of the payload (here the payload's length and some of its
  content, enough to tell the payloads of the examples apart); an object that exists
  is returned; otherwise the payload is uploaded and the row and its relations are
  inserted, the payload kept in the row unless the object is a blob.
\<close>

fun ex_weight :: "msgpack \<Rightarrow> int" where
  "ex_weight MNil = 1"
| "ex_weight (MBool b) = 2"
| "ex_weight (MInt i) = abs i + 3"
| "ex_weight (MStr cs) = int (length cs) + 5"
| "ex_weight (MBin bs) = sum_list (map uint bs) + 7"
| "ex_weight (MArray xs) = sum_list (map ex_weight xs) + 11"
| "ex_weight (MMap kvs) = sum_list (map (\<lambda>(k, v). ex_weight v) kvs) + 13"

definition ex_hash :: "payload_items \<Rightarrow> bytes" where
  "ex_hash pl = [word_of_int (sum_list (map ex_weight pl)), word_of_int (int (length pl))]"

definition ex_push_object :: "yielded \<Rightarrow> state \<Rightarrow> object outcome \<times> state" where
  "ex_push_object y s =
     (case y of (pl, uobj, rels) \<Rightarrow>
        (case find (\<lambda>obj. objid obj = ex_hash pl) (objects s) of
           Some existing \<Rightarrow> (Returns existing, s)
         | None \<Rightarrow>
             (let obj = \<lparr>objid = ex_hash pl,
                         payload = (if uo_type uobj = ''blob'' then None else Some pl),
                         obj_type = uo_type uobj, file_size = uo_file_size uobj,
                         last_modified_time = uo_last_modified_time uobj\<rparr>
              in (Returns obj,
                  s\<lparr>remote_objects := remote_objects s @ [(ex_hash pl, pl)],
                    objects := objects s @ [obj],
                    object_relations := object_relations s @
                      map (\<lambda>r. \<lparr>rel_parent = ex_hash pl, rel_child = ur_child r,
                                 rel_name = ur_name r\<rparr>) rels\<rparr>))))"

definition ex_repo :: repo where
  "ex_repo = \<lparr>push_object = ex_push_object,
              put_snapshot = (\<lambda>ss s. (Returns (), s\<lparr>remote_snapshots := remote_snapshots s @ [ss]\<rparr>)),
              backup_inline_threshold = default_inline_threshold\<rparr>"

text \<open>The same tree with both entries dirty, and with the file new.\<close>

definition ex_dirty_state :: state where
  "ex_dirty_state =
     ex_state\<lparr>fsentries := [ex_root\<lparr>obj_id := None\<rparr>, ex_child\<lparr>obj_id := None\<rparr>]\<rparr>"



text \<open>The object that the backup of \<^verbatim>\<open>/r/a\<close> stores: an inode with immediate content.\<close>

definition ex_inline_inode :: object where
  "ex_inline_inode =
     \<lparr>objid = [108, 3],
      payload = Some (fst (inode_yield ex_file_stat (immediate_item [120, 121, 122]) [])),
      obj_type = ''inode'', file_size = Some 3, last_modified_time = Some 7\<rparr>"

section \<open>Properties of the scan engine\<close>

subsection \<open>Auxiliary facts\<close>




lemma with_recursive_closed:
  "with_recursive n step queue = Some rows \<Longrightarrow>
     set queue \<subseteq> set rows \<and> (\<forall>x \<in> set rows. set (step x) \<subseteq> set rows)"
proof (induction n step queue arbitrary: rows rule: with_recursive.induct)
  case (1 n step)
  then show ?case by simp
next
  case (2 step x queue)
  then show ?case by simp
next
  case (3 n step x queue)
  from "3.prems" obtain rest where r: "with_recursive n step (queue @ step x) = Some rest"
    and rows: "rows = x # rest" by auto
  from "3.IH"[OF r] show ?case using rows by auto
qed

lemma with_recursive_rtrancl:
  assumes "with_recursive n step queue = Some rows" "x \<in> set queue"
    "(x, y) \<in> {(a, b). b \<in> set (step a)}\<^sup>*"
  shows "y \<in> set rows"
  using assms(3)
proof (induction rule: rtrancl_induct)
  case base
  then show ?case using with_recursive_closed[OF assms(1)] assms(2) by auto
next
  case (step y z)
  then show ?case using with_recursive_closed[OF assms(1)] by auto
qed
















lemma scan_clean_entry:
  assumes "clean_entry fs self"
  shows "scan fuel fs self s =
           Some (Returns self,
                 s\<lparr>logged := logged s @ [(Debug, ''Entering scan for '' @ path self),
                                         (Debug, ''No change to '' @ path self)]\<rparr>)"
proof -
  from assms obtain stat_res where l: "fs_lstat fs (path self) = Inr stat_res"
    and n: "\<not> new self" and c: "compare_stat_info self stat_res"
    by (auto simp: clean_entry_def split: sum.splits)
  from c have m: "st_mode self = Some (sr_mode stat_res)" by (simp add: compare_stat_info_def)
  show ?thesis
    using n c by (simp add: scan_def l logmsg_def Let_def m)
qed

lemma scan_each_clean:
  assumes "\<forall>e \<in> set entries. clean_entry fs e"
  shows "\<exists>s'. scan_each fuel fs entries s = Some (Returns (), s') \<and> s' = s\<lparr>logged := logged s'\<rparr>"
  using assms
proof (induction entries arbitrary: s)
  case Nil
  then show ?case by simp
next
  case (Cons e es)
  let ?s1 = "s\<lparr>logged := logged s @ [(Debug, ''Entering scan for '' @ path e),
                                         (Debug, ''No change to '' @ path e)]\<rparr>"
  from Cons.prems have e: "clean_entry fs e" and es: "\<forall>e \<in> set es. clean_entry fs e" by auto
  from Cons.IH[OF es, of ?s1] obtain s' where
    s': "scan_each fuel fs es ?s1 = Some (Returns (), s')" "s' = ?s1\<lparr>logged := logged s'\<rparr>" by blast
  have "scan_each fuel fs (e # es) s = Some (Returns (), s')"
    using s'(1) by (simp add: scan_clean_entry[OF e])
  moreover have "s' = s\<lparr>logged := logged s'\<rparr>" using s'(2)
    by (metis (no_types, lifting) state.surjective state.update_convs(8) state.select_convs)
  ultimately show ?case by blast
qed

subsection \<open>Clean idempotence of scan\<close>

text \<open>
  Claim C8. An entry whose \<^verbatim>\<open>new\<close> flag is false and whose stored \<^verbatim>\<open>st_mode\<close>,
  \<^verbatim>\<open>st_mtime_ns\<close> and \<^verbatim>\<open>st_size\<close> equal what \<^verbatim>\<open>lstat\<close> returns is returned by
  \<^verbatim>\<open>FSEntry.scan\<close> as it was, and the state after the call is the state before it but
  for two debug lines in the log: no field of the entry is written, no row is created
  or deleted, \<^verbatim>\<open>obj\<close> is not touched. Hence a pass of scans over clean entries leaves
  every table as it was.
\<close>

theorem scan_clean_idempotent:
  "(clean_entry fs self \<longrightarrow>
      scan fuel fs self s =
        Some (Returns self,
              s\<lparr>logged := logged s @ [(Debug, ''Entering scan for '' @ path self),
                                      (Debug, ''No change to '' @ path self)]\<rparr>)) \<and>
   ((\<forall>e \<in> set entries. clean_entry fs e) \<longrightarrow>
      (\<exists>s'. scan_each fuel fs entries s = Some (Returns (), s') \<and> s' = s\<lparr>logged := logged s'\<rparr>))"
proof (intro conjI impI)
  assume "clean_entry fs self"
  then show "scan fuel fs self s =
        Some (Returns self,
              s\<lparr>logged := logged s @ [(Debug, ''Entering scan for '' @ path self),
                                      (Debug, ''No change to '' @ path self)]\<rparr>)"
    by (rule scan_clean_entry)
next
  assume "\<forall>e \<in> set entries. clean_entry fs e"
  then show "\<exists>s'. scan_each fuel fs entries s = Some (Returns (), s') \<and> s' = s\<lparr>logged := logged s'\<rparr>"
    by (rule scan_each_clean)
qed

theorem scan_clean_idempotent_witness:
  "clean_entry ex_fs ex_root \<and> clean_entry ex_fs ex_child \<and>
   scan 0 ex_fs ex_child ex_state =
     Some (Returns ex_child,
           ex_state\<lparr>logged := [(Debug, ''Entering scan for /r/a''), (Debug, ''No change to /r/a'')]\<rparr>) \<and>
   (\<exists>s'. scan_each 0 ex_fs [ex_root, ex_child] ex_state = Some (Returns (), s') \<and>
         fsentries s' = [ex_root, ex_child])"
proof -
  have r: "clean_entry ex_fs ex_root" by code_simp
  have c: "clean_entry ex_fs ex_child" by code_simp
  have p: "path ex_child = ''/r/a''" and lg: "logged ex_state = []"
    by (simp_all add: ex_child_def ex_state_def)
  have f: "fsentries ex_state = [ex_root, ex_child]" by (simp add: ex_state_def)
  have all: "\<forall>e \<in> set [ex_root, ex_child]. clean_entry ex_fs e" using r c by simp
  note inst = scan_clean_idempotent[of ex_fs ex_child 0 ex_state "[ex_root, ex_child]"]
  have 1: "scan 0 ex_fs ex_child ex_state =
        Some (Returns ex_child,
              ex_state\<lparr>logged := logged ex_state @ [(Debug, ''Entering scan for '' @ path ex_child),
                                      (Debug, ''No change to '' @ path ex_child)]\<rparr>)"
    by (rule mp[OF conjunct1[OF inst] c])
  have 2: "\<exists>s'. scan_each 0 ex_fs [ex_root, ex_child] ex_state = Some (Returns (), s')
          \<and> s' = ex_state\<lparr>logged := logged s'\<rparr>"
    by (rule mp[OF conjunct2[OF inst] all])
  then obtain s' where s1: "scan_each 0 ex_fs [ex_root, ex_child] ex_state = Some (Returns (), s')"
    and s2: "s' = ex_state\<lparr>logged := logged s'\<rparr>" by blast
  from arg_cong[OF s2, of fsentries] have "fsentries s' = [ex_root, ex_child]" by (simp add: f)
  with s1 have 3: "\<exists>s'. scan_each 0 ex_fs [ex_root, ex_child] ex_state = Some (Returns (), s') \<and>
         fsentries s' = [ex_root, ex_child]" by blast
  have 4: "scan 0 ex_fs ex_child ex_state =
     Some (Returns ex_child,
           ex_state\<lparr>logged := [(Debug, ''Entering scan for /r/a''), (Debug, ''No change to /r/a'')]\<rparr>)"
    using 1 by (simp add: p lg)
  show ?thesis by (rule conjI[OF r conjI[OF c conjI[OF 4 3]]])
qed

subsection \<open>Dirty propagation\<close>



subsection \<open>Permission denied while listing a directory\<close>




section \<open>Properties of the garbage collector\<close>

subsection \<open>Auxiliary facts\<close>

lemma bloom_le_refl: "bloom_le b b"
  by (simp add: bloom_le_def)

lemma bloom_le_trans: "bloom_le a b \<Longrightarrow> bloom_le b c \<Longrightarrow> bloom_le a c"
  by (simp add: bloom_le_def)

lemma py_index_less: "py_index n i = Some j \<Longrightarrow> j < n"
  by (auto simp: py_index_def split: if_splits)

lemma bloom_set_le:
  assumes "bloom_set m h x b = Returns b'"
  shows "bloom_le b b'"
proof -
  from assms obtain i k where b': "b' = b[i := (b ! i) OR push_bit k 1]" and i: "i < length b"
    by (auto simp: bloom_set_def Let_def split: if_splits option.splits dest: py_index_less)
  show ?thesis unfolding bloom_le_def b' using i
    by (auto simp: nth_list_update bit_or_iff)
qed

lemma bloom_set_marked:
  assumes "bloom_set m h x b = Returns b'"
  shows "marked m b' h x"
proof -
  from assms have m: "m \<noteq> 0" by (auto simp: bloom_set_def split: if_splits)
  define h' where "h' = (h XOR x) mod m"
  from assms m obtain i where i: "py_index (length b) (h' div 8) = Some i"
    and b': "b' = b[i := (b ! i) OR push_bit (nat (h' mod 8)) 1]"
    by (auto simp: bloom_set_def Let_def h'_def split: if_splits option.splits)
  have len: "length b' = length b" by (simp add: b')
  have il: "i < length b" using i by (rule py_index_less)
  have "bit (b' ! i) (nat (h' mod 8))" using il by (simp add: b' bit_or_iff bit_exp_iff)
  then have "(b' ! i) AND push_bit (nat (h' mod 8)) 1 \<noteq> 0"
    by (simp add: bit_iff_and_push_bit_not_eq_0)
  then show ?thesis
    using m i by (simp add: marked_def hash_match_def Let_def h'_def[symmetric] len)
qed

lemma marked_mono:
  assumes "marked m b h x" "bloom_le b b'"
  shows "marked m b' h x"
proof -
  from assms(1) have m: "m \<noteq> 0" by (auto simp: marked_def hash_match_def split: if_splits)
  define h' where "h' = (h XOR x) mod m"
  from assms(1) m obtain i where i: "py_index (length b) (h' div 8) = Some i"
    and v: "(b ! i) AND push_bit (nat (h' mod 8)) 1 \<noteq> 0"
    by (auto simp: marked_def hash_match_def Let_def h'_def split: if_splits option.splits)
  have len: "length b' = length b" using assms(2) by (simp add: bloom_le_def)
  have il: "i < length b" using i by (rule py_index_less)
  from v have "bit (b ! i) (nat (h' mod 8))" by (simp add: bit_iff_and_push_bit_not_eq_0)
  then have "bit (b' ! i) (nat (h' mod 8))" using assms(2) il by (simp add: bloom_le_def)
  then have "(b' ! i) AND push_bit (nat (h' mod 8)) 1 \<noteq> 0"
    by (simp add: bit_iff_and_push_bit_not_eq_0)
  then show ?thesis
    using m i by (simp add: marked_def hash_match_def Let_def h'_def[symmetric] len)
qed

lemma mark_object_marked:
  "mark_object m hashes x b = Returns b' \<Longrightarrow>
     bloom_le b b' \<and> (\<forall>h \<in> set hashes. marked m b' h x)"
proof (induction hashes arbitrary: b)
  case Nil
  then show ?case by (simp add: bloom_le_refl)
next
  case (Cons h hs)
  from Cons.prems obtain b1 where s: "bloom_set m h x b = Returns b1"
    and r: "mark_object m hs x b1 = Returns b'"
    by (auto split: outcome.splits)
  from Cons.IH[OF r] have le: "bloom_le b1 b'" and all: "\<forall>h \<in> set hs. marked m b' h x" by auto
  have "marked m b' h x" using marked_mono[OF bloom_set_marked[OF s] le] .
  moreover have "bloom_le b b'" using bloom_le_trans[OF bloom_set_le[OF s] le] .
  ultimately show ?case using all by simp
qed

lemma mark_reachable_marked:
  "mark_reachable n step m hashes queue b = Some (Returns b') \<Longrightarrow>
     bloom_le b b' \<and>
     (\<exists>rows. with_recursive n step queue = Some rows \<and>
        (\<forall>row \<in> set rows. \<forall>h \<in> set hashes. marked m b' h (int_from_bytes_little row)))"
proof (induction n step m hashes queue b rule: mark_reachable.induct)
  case (1 n step m hashes bloom)
  then show ?case by (simp add: bloom_le_refl)
next
  case (2 step m hashes row queue bloom)
  then show ?case by simp
next
  case (3 n step m hashes row queue bloom)
  from "3.prems" obtain b1 where o: "mark_object m hashes (int_from_bytes_little row) bloom = Returns b1"
    and r: "mark_reachable n step m hashes (queue @ step row) b1 = Some (Returns b')"
    by (auto split: outcome.splits)
  from "3.IH"[OF o r] obtain rows where le: "bloom_le b1 b'"
    and w: "with_recursive n step (queue @ step row) = Some rows"
    and all: "\<forall>row \<in> set rows. \<forall>h \<in> set hashes. marked m b' h (int_from_bytes_little row)"
    by blast
  from mark_object_marked[OF o] have le0: "bloom_le bloom b1"
    and m0: "\<forall>h \<in> set hashes. marked m b1 h (int_from_bytes_little row)" by auto
  have m1: "\<forall>h \<in> set hashes. marked m b' h (int_from_bytes_little row)"
    using m0 marked_mono[OF _ le] by blast
  have "with_recursive (Suc n) step (row # queue) = Some (row # rows)" using w by simp
  moreover have "\<forall>r \<in> set (row # rows). \<forall>h \<in> set hashes. marked m b' h (int_from_bytes_little r)"
    using all m1 by simp
  moreover have "bloom_le bloom b'" using bloom_le_trans[OF le0 le] .
  ultimately show ?case by blast
qed

lemma all_match_False:
  "all_match m b hashes x = Returns False \<Longrightarrow> \<exists>h \<in> set hashes. \<not> marked m b h x"
proof (induction hashes)
  case Nil
  then show ?case by simp
next
  case (Cons h hs)
  show ?case
  proof (cases "hash_match m b h x")
    case (Raises e)
    with Cons.prems show ?thesis by simp
  next
    case (Returns v)
    show ?thesis
    proof (cases "v = 0")
      case True
      with Returns have "\<not> marked m b h x" by (simp add: marked_def)
      then show ?thesis by simp
    next
      case False
      with Returns Cons.prems have "all_match m b hs x = Returns False" by simp
      from Cons.IH[OF this] show ?thesis by auto
    qed
  qed
qed

lemma sweep_yields:
  "obj \<in> set (fst (sweep m b hashes objs)) \<Longrightarrow>
     all_match m b hashes (int_from_bytes_little (objid obj)) = Returns False"
proof (induction objs)
  case Nil
  then show ?case by simp
next
  case (Cons o1 os)
  show ?case
  proof (cases "all_match m b hashes (int_from_bytes_little (objid o1))")
    case (Raises e)
    with Cons.prems show ?thesis by simp
  next
    case (Returns matched)
    with Cons.prems have "obj \<in> set (if matched then fst (sweep m b hashes os)
                                    else o1 # fst (sweep m b hashes os))"
      by (simp add: case_prod_beta)
    then show ?thesis using Cons.IH Returns by (auto split: if_splits)
  qed
qed

lemma relation_children_edges:
  "{(a, b). b \<in> set (relation_children (object_relations s) a)} = relation_edges s"
  by (auto simp: relation_children_def relation_edges_def)

subsection \<open>Soundness\<close>

text \<open>
  Claim C1. Whatever the filter size, the salts and the fuel, when
  \<^verbatim>\<open>Object.collect_garbage\<close> has run (to its end or to an exception), no object whose
  objid is reachable from a snapshot root along \<^verbatim>\<open>object_relations\<close> is among the
  objects it yielded: the bits set for a reachable objid in the reachability pass are
  the bits tested for it in the sweep pass.
\<close>

theorem collect_garbage_sound:
  assumes "collect_garbage fuel env s = Some (garbage, err)"
    and "reachable s (objid obj)"
  shows "obj \<notin> set garbage"
proof
  assume y: "obj \<in> set garbage"
  define m where "m = filter_bits env (length (objects s))"
  define hashes where "hashes = map (getrandbits env) [0..<nat (hash_count env m (length (objects s)))]"
  define bloom where "bloom = replicate (nat (- ((- m) div 8))) (0::int)"
  from assms(1) y obtain b' where
    mr: "mark_reachable fuel (relation_children (object_relations s)) m hashes
           (map ss_root_id (snapshots s)) bloom = Some (Returns b')"
    and sw: "sweep m b' hashes (objects s) = (garbage, err)"
    by (auto simp: collect_garbage_def Let_def m_def hashes_def bloom_def
        split: if_splits option.splits outcome.splits)
  from mark_reachable_marked[OF mr] obtain rows where
    w: "with_recursive fuel (relation_children (object_relations s)) (map ss_root_id (snapshots s)) = Some rows"
    and all: "\<forall>row \<in> set rows. \<forall>h \<in> set hashes. marked m b' h (int_from_bytes_little row)"
    by blast
  from assms(2) obtain ss where ss: "ss \<in> set (snapshots s)"
    and r: "(ss_root_id ss, objid obj) \<in> (relation_edges s)\<^sup>*"
    by (auto simp: reachable_def)
  have "objid obj \<in> set rows"
    using with_recursive_rtrancl[OF w, of "ss_root_id ss" "objid obj"] ss r
    unfolding relation_children_edges by simp
  with all have "\<forall>h \<in> set hashes. marked m b' h (int_from_bytes_little (objid obj))" by blast
  moreover from y sw have "obj \<in> set (fst (sweep m b' hashes (objects s)))" by simp
  from all_match_False[OF sweep_yields[OF this]]
  have "\<exists>h \<in> set hashes. \<not> marked m b' h (int_from_bytes_little (objid obj))" .
  ultimately show False by blast
qed

theorem collect_garbage_sound_witness:
  "collect_garbage 5 ex_gc_env ex_gc_state = Some ([ex_object [3]], None) \<and>
   reachable ex_gc_state (objid (ex_object [2])) \<and>
   ex_object [2] \<notin> set [ex_object [3]]"
proof -
  have c: "collect_garbage 5 ex_gc_env ex_gc_state = Some ([ex_object [3]], None)"
    by code_simp
  have "([1], [2]) \<in> relation_edges ex_gc_state"
    by (simp add: relation_edges_def ex_gc_state_def)
  then have "([1], [2]) \<in> (relation_edges ex_gc_state)\<^sup>*" by (rule r_into_rtrancl)
  then have r: "reachable ex_gc_state (objid (ex_object [2]))"
    by (simp add: reachable_def ex_gc_state_def ex_object_def)
  from collect_garbage_sound[OF c r] show ?thesis using c r by blast
qed

subsection \<open>The empty table\<close>

text \<open>
  Claim C9. When the \<^verbatim>\<open>objects\<close> table has no row, \<^verbatim>\<open>Object.collect_garbage\<close> raises
  \<^verbatim>\<open>ZeroDivisionError\<close> (the division by \<^verbatim>\<open>num_objects\<close> in the computation of \<open>k\<close>)
  before it yields or examines any object; it runs to completion only when the table
  has a row.
\<close>

theorem collect_garbage_empty_table:
  "(objects s = [] \<longrightarrow> collect_garbage fuel env s = Some ([], Some ZeroDivisionError)) \<and>
   (collect_garbage fuel env s = Some (garbage, None) \<longrightarrow> objects s \<noteq> [])"
  by (auto simp: collect_garbage_def)

theorem collect_garbage_empty_table_witness:
  "objects (ex_gc_state\<lparr>objects := []\<rparr>) = [] \<and>
   collect_garbage 5 ex_gc_env (ex_gc_state\<lparr>objects := []\<rparr>) = Some ([], Some ZeroDivisionError) \<and>
   collect_garbage 5 ex_gc_env ex_gc_state = Some ([ex_object [3]], None) \<and>
   objects ex_gc_state \<noteq> []"
proof -
  have e: "objects (ex_gc_state\<lparr>objects := []\<rparr>) = []" by simp
  have c: "collect_garbage 5 ex_gc_env ex_gc_state = Some ([ex_object [3]], None)"
    by code_simp
  have 1: "collect_garbage 5 ex_gc_env (ex_gc_state\<lparr>objects := []\<rparr>) = Some ([], Some ZeroDivisionError)"
    by (rule mp[OF conjunct1[OF collect_garbage_empty_table] e])
  have 2: "objects ex_gc_state \<noteq> []"
    by (rule mp[OF conjunct2[OF collect_garbage_empty_table] c])
  show ?thesis by (rule conjI[OF e conjI[OF 1 conjI[OF c 2]]])
qed

section \<open>Properties of the backup engine\<close>

subsection \<open>Auxiliary facts\<close>













subsection \<open>The exit contract\<close>



subsection \<open>Auxiliary facts about regular files\<close>







subsection \<open>The inline threshold\<close>



subsection \<open>The precondition of backup\<close>



section \<open>Properties of the children reader\<close>

lemma second_of_each_pairs:
  "second_of_each (map (\<lambda>(a, b). MArray [f a, g b]) xs) = Returns (map (\<lambda>(a, b). g b) xs)"
  by (induction xs) (auto simp: py_getitem_def py_index_def)

lemma calculate_children_tree:
  "calculate_children (obj\<lparr>payload := Some (fst (tree_yield stat_res children))\<rparr>)
     = Returns (map (\<lambda>c. MBin (the (obj_id c))) children)"
proof -
  have "second_of_each (map (\<lambda>c. MArray [MBin (fsencode (entry_name c)), MBin (the (obj_id c))]) children)
      = Returns (map (\<lambda>c. MBin (the (obj_id c))) children)"
    by (induction children) (auto simp: py_getitem_def py_index_def)
  then show ?thesis
    by (simp add: calculate_children_def tree_yield_def py_next_def children_of_item_def py_iter_def)
qed

lemma calculate_children_chunklist:
  "calculate_children (obj\<lparr>payload := Some (fst (inode_yield stat_res (chunklist_item chunk_list) rels))\<rparr>)
     = Returns (map (\<lambda>(pos, oid). MBin oid) chunk_list)"
proof -
  have "second_of_each (map (\<lambda>(pos, oid). MArray [MInt pos, MBin oid]) chunk_list)
      = Returns (map (\<lambda>(pos, oid). MBin oid) chunk_list)"
    by (rule second_of_each_pairs)
  then show ?thesis
    by (simp add: calculate_children_def inode_yield_def chunklist_item_def py_next_def
        children_of_item_def py_iter_def py_getitem_def py_index_def)
qed

lemma calculate_children_immediate:
  "calculate_children (obj\<lparr>payload := Some (fst (inode_yield stat_res (immediate_item data) rels))\<rparr>)
     = (if data = [] then Returns [] else Raises TypeError)"
  by (cases data)
    (simp_all add: calculate_children_def inode_yield_def immediate_item_def py_next_def
      children_of_item_def py_iter_def py_getitem_def py_index_def)

lemma backup_entry_stores_inline_inode:
  "objects (snd (backup_entry ex_fs 2 ex_repo (ex_child\<lparr>obj_id := None\<rparr>) ex_dirty_state))
     = [ex_inline_inode]"
  by code_simp

text \<open>
  Claim C4 describes the intended behaviour, and the code misses it for an inode
  whose content is stored immediately: the second element of \<^verbatim>\<open>("immediate", bytes)\<close>
  is a byte string, iterating over it gives integers, and the subscript \<^verbatim>\<open>c[1]\<close> of
  an integer raises \<^verbatim>\<open>TypeError\<close>. The file \<^verbatim>\<open>/r/a\<close> of three bytes is inlined by the
  backup engine; the object stored for the tuple it yields has the inode payload, and
  \<^verbatim>\<open>Object.calculate_children\<close> raises on it instead of returning the empty sequence.
\<close>

theorem calculate_children_immediate_raises:
  "objects (snd (ex_push_object (inode_yield ex_file_stat (immediate_item [120, 121, 122]) [])
                  ex_dirty_state)) = [ex_inline_inode] \<and>
   payload ex_inline_inode =
     Some [MStr ''inode'', inode_info ex_file_stat, MArray [MStr ''immediate'', MBin [120, 121, 122]]] \<and>
   calculate_children ex_inline_inode = Raises TypeError"
  by code_simp

section \<open>Protection of snapshot roots\<close>

text \<open>
  Claim C10. While a snapshot row exists, deleting the object that is its root is
  refused with \<^verbatim>\<open>ProtectedError\<close> and changes nothing (\<^verbatim>\<open>Snapshot.root\<close> is declared
  with \<^verbatim>\<open>on_delete=PROTECT\<close>); and no deletion of an object, refused or not, removes a
  snapshot row or the root object of a snapshot.
\<close>

theorem snapshot_root_protected:
  assumes "ss \<in> set (snapshots s)"
  shows "snapshot_root_on_delete = PROTECT \<and>
         delete_object (ss_root_id ss) s = (Raises ProtectedError, s) \<and>
         (\<forall>oid res s'. delete_object oid s = (res, s') \<longrightarrow>
            snapshots s' = snapshots s \<and>
            (\<forall>obj \<in> set (objects s). objid obj = ss_root_id ss \<longrightarrow> obj \<in> set (objects s')))"
proof (intro conjI allI impI)
  show "snapshot_root_on_delete = PROTECT" by (simp add: snapshot_root_on_delete_def)
  show "delete_object (ss_root_id ss) s = (Raises ProtectedError, s)"
    using assms by (auto simp: delete_object_def snapshot_root_on_delete_def)
next
  fix oid res s'
  assume d: "delete_object oid s = (res, s')"
  show "snapshots s' = snapshots s"
    using d by (auto simp: delete_object_def snapshot_root_on_delete_def split: if_splits)
  show "\<forall>obj \<in> set (objects s). objid obj = ss_root_id ss \<longrightarrow> obj \<in> set (objects s')"
  proof (cases "\<exists>x \<in> set (snapshots s). ss_root_id x = oid")
    case True
    with d have "s' = s" by (auto simp: delete_object_def snapshot_root_on_delete_def)
    then show ?thesis by simp
  next
    case False
    with assms have ne: "ss_root_id ss \<noteq> oid" by blast
    from False d have "objects s' = filter (\<lambda>obj. objid obj \<noteq> oid) (objects s)"
      by (auto simp: delete_object_def snapshot_root_on_delete_def)
    then show ?thesis using ne by auto
  qed
qed

theorem snapshot_root_protected_witness:
  "\<lparr>ss_path = ''/r'', ss_root_id = [1], ss_date = 0\<rparr> \<in> set (snapshots ex_gc_state) \<and>
   delete_object [1] ex_gc_state = (Raises ProtectedError, ex_gc_state) \<and>
   fst (delete_object [3] ex_gc_state) = Returns () \<and>
   ex_object [1] \<in> set (objects (snd (delete_object [3] ex_gc_state))) \<and>
   snapshots (snd (delete_object [3] ex_gc_state)) = snapshots ex_gc_state"
proof -
  let ?ss = "\<lparr>ss_path = ''/r'', ss_root_id = [1], ss_date = 0\<rparr>"
  have m: "?ss \<in> set (snapshots ex_gc_state)" by (simp add: ex_gc_state_def)
  note p = snapshot_root_protected[OF m]
  have 1: "delete_object [1] ex_gc_state = (Raises ProtectedError, ex_gc_state)"
    using p by simp
  have r: "fst (delete_object [3] ex_gc_state) = Returns ()" by code_simp
  have o: "ex_object [1] \<in> set (objects ex_gc_state)" "objid (ex_object [1]) = ss_root_id ?ss"
    by (simp_all add: ex_gc_state_def ex_object_def)
  have d: "delete_object [3] ex_gc_state
      = (fst (delete_object [3] ex_gc_state), snd (delete_object [3] ex_gc_state))" by simp
  from p have all: "\<forall>oid res s'. delete_object oid ex_gc_state = (res, s') \<longrightarrow>
            snapshots s' = snapshots ex_gc_state \<and>
            (\<forall>obj \<in> set (objects ex_gc_state). objid obj = ss_root_id ?ss \<longrightarrow> obj \<in> set (objects s'))"
    by blast
  from all d have 2: "snapshots (snd (delete_object [3] ex_gc_state)) = snapshots ex_gc_state"
    and 3: "\<forall>obj \<in> set (objects ex_gc_state). objid obj = ss_root_id ?ss
               \<longrightarrow> obj \<in> set (objects (snd (delete_object [3] ex_gc_state)))"
    by blast+
  from 3 o have 4: "ex_object [1] \<in> set (objects (snd (delete_object [3] ex_gc_state)))" by blast
  show ?thesis by (rule conjI[OF m conjI[OF 1 conjI[OF r conjI[OF 4 2]]]])
qed

end
